theory Spec2Isabelle
  imports Main "HOL-Library.Finite_Map" "HOL-Library.Sublist" "HOL-Library.Word"
begin

section \<open>Values, documents and errors\<close>

text \<open>
  Go values of type \<open>interface{}\<close> as they occur in payloads, identifiers and filters.
  \<open>M\<close> is \<open>bson.M\<close> (a Go map from string to value), \<open>ObjectID\<close> is
  \<open>primitive.ObjectID\<close> (its bytes), \<open>PrimitiveRegex\<close> is \<open>primitive.Regex\<close> with its
  \<open>Pattern\<close>. A slice of documents \<open>[]bson.M\<close> is an \<open>AnySlice\<close> of \<open>M\<close> values.
\<close>

type_synonym byte = "8 word"

datatype any =
    AnyNil
  | AnyString string
  | AnyInt int
  | AnyBool bool
  | AnyTime int
  | ObjectID "byte list"
  | AnySlice "any list"
  | M "(string, any) fmap"
  | PrimitiveRegex string

type_synonym bsonM = "(string, any) fmap"

text \<open>\<open>bson.E\<close> and \<open>bson.D\<close>: an ordered document, used for the sort list.\<close>

record E =
  Key :: string
  Value :: any

type_synonym D = "E list"

text \<open>
  The structured write errors of the driver. Only \<open>Code\<close> is read by this package.
\<close>

record WriteError =
  Code :: int
  Message :: string

text \<open>
  Go \<open>error\<close> values: the framework's vocabulary (\<open>resource.ErrNotFound\<close>,
  \<open>resource.ErrConflict\<close>, \<open>resource.ErrNotImplemented\<close>), the driver's
  \<open>mongo.ErrNoDocuments\<close>, \<open>mongo.WriteException\<close> and \<open>mongo.BulkWriteException\<close>
  with their \<open>WriteErrors\<close>, the two context errors, an error wrapping another one
  (what \<open>errors.As\<close> unwraps), and any other error. A nil error is \<open>None\<close>.
\<close>

datatype error =
    ErrNotFound
  | ErrConflict
  | ErrNotImplemented
  | ErrNoDocuments
  | Canceled
  | DeadlineExceeded
  | WriteException "WriteError list"
  | BulkWriteException "WriteError list"
  | Wrapped string error
  | OtherError string

section \<open>Items\<close>

text \<open>\<open>mongoItem\<close> of mongo.go; a nil \<open>Payload\<close> map is \<open>None\<close>.\<close>

record mongoItem =
  ID :: any
  ETag :: string
  Updated :: int
  Payload :: "bsonM option"

text \<open>\<open>resource.Item\<close> of the framework, with the four fields this package reads.\<close>

record Item =
  ID :: any
  ETag :: string
  Updated :: int
  Payload :: "bsonM option"

text \<open>
  \<open>newMongoItem\<close>: ranging over a nil map yields nothing, so a nil payload gives the
  empty map \<open>p\<close>.
\<close>

definition newMongoItem :: "Item \<Rightarrow> mongoItem" where
  "newMongoItem i =
     (let p = fmfilter (\<lambda>k. k \<noteq> ''id'') (case Payload i of None \<Rightarrow> fmempty | Some pl \<Rightarrow> pl)
      in \<lparr>mongoItem.ID = ID i, mongoItem.ETag = ETag i, mongoItem.Updated = Updated i,
          mongoItem.Payload = Some p\<rparr>)"

text \<open>\<open>ObjectID.Hex\<close>: two lower-case hexadecimal digits per byte.\<close>

definition hexdigit :: "nat \<Rightarrow> char" where
  "hexdigit n = ''0123456789abcdef'' ! n"

definition Hex :: "byte list \<Rightarrow> string" where
  "Hex v = concat (map (\<lambda>b. [hexdigit (unat b div 16), hexdigit (unat b mod 16)]) v)"

text \<open>
  \<open>newItem\<close>. \<open>fmt.Sprint\<close> belongs to the Go standard library and is the parameter
  \<open>Sprint\<close>. The source stores the identifier into the payload map of its argument (the
  returned item shares that map); the model returns the item built from the updated map.
\<close>

definition newItem :: "(any \<Rightarrow> string) \<Rightarrow> mongoItem \<Rightarrow> Item" where
  "newItem Sprint i =
     (let pl = (case mongoItem.Payload i of None \<Rightarrow> fmempty | Some p \<Rightarrow> p);
          pl = fmupd ''id'' (mongoItem.ID i) pl;
          item = \<lparr>ID = mongoItem.ID i, ETag = mongoItem.ETag i, Updated = mongoItem.Updated i,
                  Payload = Some pl\<rparr>
      in if ETag item = ''''
         then (case mongoItem.ID i of
                 ObjectID v \<Rightarrow> item\<lparr>ETag := ''p-'' @ Hex v\<rparr>
               | _ \<Rightarrow> item\<lparr>ETag := ''p-'' @ Sprint (mongoItem.ID i)\<rparr>)
         else item)"

section \<open>Queries\<close>

text \<open>
  \<open>query.Expression\<close>: the node types the type switches of query.go name. The first
  fourteen are the pointer types \<open>*query.And\<close> ... \<open>*query.Regex\<close> (a \<open>Regex\<close> carries
  its field, the text \<open>Value.String()\<close> of its pattern and \<open>Negated\<close>); \<open>Predicate\<close>
  and \<open>PredicatePtr\<close> are \<open>query.Predicate\<close> and \<open>*query.Predicate\<close>, which
  \<open>expToPredicate\<close> tells apart; \<open>Other\<close> is an expression of any other dynamic type,
  named by its type.
\<close>

datatype Expression =
    And "Expression list"
  | Or "Expression list"
  | ElemMatch string "Expression list"
  | In string "any list"
  | NotIn string "any list"
  | Exist string
  | NotExist string
  | Equal string any
  | NotEqual string any
  | GreaterThan string any
  | GreaterOrEqual string any
  | LowerThan string any
  | LowerOrEqual string any
  | Regex string string bool
  | Predicate "Expression list"
  | PredicatePtr "Expression list"
  | Other string

record SortField =
  Name :: string
  Reversed :: bool

record ProjectionField =
  Name :: string

record Window =
  Offset :: int
  Limit :: int

record Query =
  Predicate :: "Expression list"
  Sort :: "SortField list"
  Projection :: "ProjectionField list"
  Window :: "Window option"

text \<open>
  \<open>options.FindOptions\<close> and \<open>options.CountOptions\<close> of the driver, with the
  settings this package makes; \<open>options.Find()\<close> has none of them set.
\<close>

record FindOptions =
  Sort :: "D option"
  Projection :: "bsonM option"
  Skip :: "int option"
  Limit :: "int option"
  MaxTime :: "int option"

record CountOptions =
  MaxTime :: "int option"

definition options_Find :: FindOptions where
  "options_Find = \<lparr>FindOptions.Sort = None, FindOptions.Projection = None, Skip = None,
                    FindOptions.Limit = None, FindOptions.MaxTime = None\<rparr>"

section \<open>query.go\<close>

definition getField :: "string \<Rightarrow> string" where
  "getField f = (if f = ''id'' then ''_id'' else f)"

text \<open>
  The second loop of \<open>getSort\<close>, \<open>for i := len(s) - 1; i >= 0; i--\<close>, with the
  counter \<open>i + 1\<close> as a natural number: \<open>seen\<close> is the Go map from key to bool (a
  missing key reads as false), and \<open>append(s[:i], s[i+1:]...)\<close> removes the entry at
  index \<open>i\<close>.
\<close>

fun getSort_dedup :: "nat \<Rightarrow> D \<Rightarrow> (string \<Rightarrow> bool) \<Rightarrow> D" where
  "getSort_dedup 0 s seen = s"
| "getSort_dedup (Suc i) s seen =
     (if seen (Key (s ! i))
      then getSort_dedup i (take i s @ drop (i + 1) s) seen
      else getSort_dedup i s (seen(Key (s ! i) := True)))"

definition getSort :: "Query \<Rightarrow> D" where
  "getSort q =
     (if length (Query.Sort q) = 0 then [\<lparr>Key = ''_id'', Value = AnyInt 1\<rparr>]
      else let s = map (\<lambda>sort. \<lparr>Key = getField (SortField.Name sort),
                                  Value = AnyInt (if Reversed sort then - 1 else 1)\<rparr>)
                       (Query.Sort q)
           in getSort_dedup (length s) s (\<lambda>k. False))"

definition hasStarProjection :: "Query \<Rightarrow> bool" where
  "hasStarProjection q = (\<exists>field \<in> set (Query.Projection q). ProjectionField.Name field = ''*'')"

text \<open>\<open>strings.Split\<close> for a one-character separator: never an empty result.\<close>

fun Split :: "string \<Rightarrow> char \<Rightarrow> string list" where
  "Split [] sep = [[]]"
| "Split (x # xs) sep =
     (if x = sep then [] # Split xs sep
      else (case Split xs sep of [] \<Rightarrow> [[x]] | y # ys \<Rightarrow> (x # y) # ys))"

definition getProjection :: "Query \<Rightarrow> bsonM option" where
  "getProjection q =
     (if length (Query.Projection q) = 0 \<or> hasStarProjection q then None
      else Some (fold
        (\<lambda>field p.
           if ProjectionField.Name field = ''id'' then p
           else let fname = Split (ProjectionField.Name field) CHR ''.'';
                    name = (if length fname > 1 then fname ! 0 else ProjectionField.Name field)
                in fmupd (getField name) (AnyInt 1) p)
        (Query.Projection q)
        (fmupd ''_updated'' (AnyInt 1) (fmupd ''_etag'' (AnyInt 1)
          (fmupd ''_id'' (AnyInt 1) fmempty)))))"

definition applyWindow :: "FindOptions \<Rightarrow> Window \<Rightarrow> FindOptions" where
  "applyWindow fo w =
     (let fo = (if Offset w > 0 then fo\<lparr>Skip := Some (Offset w)\<rparr> else fo);
          fo = (if Window.Limit w > - 1 then fo\<lparr>FindOptions.Limit := Some (Window.Limit w)\<rparr> else fo)
      in fo)"

fun expToPredicate :: "Expression \<Rightarrow> Expression list" where
  "expToPredicate (Expression.Predicate t) = t"
| "expToPredicate (PredicatePtr t) = t"
| "expToPredicate t = [t]"

text \<open>
  \<open>translatePredicate\<close>. \<open>translate_exps\<close> is its loop over the expressions of the
  predicate, carrying the filter \<open>b\<close> built so far; \<open>translate_subs\<close> is the inner loop
  of the \<open>And\<close> and \<open>Or\<close> cases, carrying the slice \<open>s\<close>; \<open>translate_elem\<close> is the
  inner loop of the \<open>ElemMatch\<close> case, where \<open>for k, v := range sb { s[k] = v }\<close>
  merges \<open>sb\<close> into \<open>s\<close>. Every \<open>return nil, err\<close> is \<open>Inl err\<close>.
\<close>

function translatePredicate :: "Expression list \<Rightarrow> error + bsonM"
  and translate_exps :: "Expression list \<Rightarrow> bsonM \<Rightarrow> error + bsonM"
  and translate_subs :: "Expression list \<Rightarrow> bsonM list \<Rightarrow> error + bsonM list"
  and translate_elem :: "Expression list \<Rightarrow> bsonM \<Rightarrow> error + bsonM"
where
  "translatePredicate q = translate_exps q fmempty"
| "translate_exps [] b = Inr b"
| "translate_exps (And t # q) b =
     (case translate_subs t [] of
        Inl err \<Rightarrow> Inl err
      | Inr s \<Rightarrow> translate_exps q (fmupd ''$and'' (AnySlice (map M s)) b))"
| "translate_exps (Or t # q) b =
     (case translate_subs t [] of
        Inl err \<Rightarrow> Inl err
      | Inr s \<Rightarrow> translate_exps q (fmupd ''$or'' (AnySlice (map M s)) b))"
| "translate_exps (ElemMatch f t # q) b =
     (case translate_elem t fmempty of
        Inl err \<Rightarrow> Inl err
      | Inr s \<Rightarrow> translate_exps q (fmupd (getField f) (M (fmupd ''$elemMatch'' (M s) fmempty)) b))"
| "translate_exps (In f vs # q) b =
     translate_exps q (fmupd (getField f) (M (fmupd ''$in'' (AnySlice vs) fmempty)) b)"
| "translate_exps (NotIn f vs # q) b =
     translate_exps q (fmupd (getField f) (M (fmupd ''$nin'' (AnySlice vs) fmempty)) b)"
| "translate_exps (Exist f # q) b =
     translate_exps q (fmupd (getField f) (M (fmupd ''$exists'' (AnyBool True) fmempty)) b)"
| "translate_exps (NotExist f # q) b =
     translate_exps q (fmupd (getField f) (M (fmupd ''$exists'' (AnyBool False) fmempty)) b)"
| "translate_exps (Equal f v # q) b =
     translate_exps q (fmupd (getField f) v b)"
| "translate_exps (NotEqual f v # q) b =
     translate_exps q (fmupd (getField f) (M (fmupd ''$ne'' v fmempty)) b)"
| "translate_exps (GreaterThan f v # q) b =
     translate_exps q (fmupd (getField f) (M (fmupd ''$gt'' v fmempty)) b)"
| "translate_exps (GreaterOrEqual f v # q) b =
     translate_exps q (fmupd (getField f) (M (fmupd ''$gte'' v fmempty)) b)"
| "translate_exps (LowerThan f v # q) b =
     translate_exps q (fmupd (getField f) (M (fmupd ''$lt'' v fmempty)) b)"
| "translate_exps (LowerOrEqual f v # q) b =
     translate_exps q (fmupd (getField f) (M (fmupd ''$lte'' v fmempty)) b)"
| "translate_exps (Regex f v negated # q) b =
     (if negated
      then translate_exps q (fmupd (getField f) (M (fmupd ''$not'' (PrimitiveRegex v) fmempty)) b)
      else translate_exps q (fmupd (getField f) (M (fmupd ''$regex'' (AnyString v) fmempty)) b))"
| "translate_exps (Expression.Predicate t # q) b = Inl ErrNotImplemented"
| "translate_exps (PredicatePtr t # q) b = Inl ErrNotImplemented"
| "translate_exps (Other n # q) b = Inl ErrNotImplemented"
| "translate_subs [] s = Inr s"
| "translate_subs (subExp # t) s =
     (case translatePredicate (expToPredicate subExp) of
        Inl err \<Rightarrow> Inl err
      | Inr sb \<Rightarrow> translate_subs t (s @ [sb]))"
| "translate_elem [] s = Inr s"
| "translate_elem (subExp # t) s =
     (case translatePredicate (expToPredicate subExp) of
        Inl err \<Rightarrow> Inl err
      | Inr sb \<Rightarrow> translate_elem t (s ++\<^sub>f sb))"
  by pat_completeness auto

termination
proof -
  have sz: "2 * size_list size (expToPredicate e) < Suc (Suc (Suc (2 * size e + n)))" for e n
    by (cases e) simp_all
  show ?thesis
    by (relation "measure (\<lambda>x. case x of
          Inl (Inl q) \<Rightarrow> 2 * size_list size q + 1
        | Inl (Inr (q, b)) \<Rightarrow> 2 * size_list size q
        | Inr (Inl (t, s)) \<Rightarrow> 2 * size_list size t + 2
        | Inr (Inr (t, s)) \<Rightarrow> 2 * size_list size t + 2)") (simp_all add: sz)
qed

definition getQuery :: "Query \<Rightarrow> error + bsonM" where
  "getQuery q = translatePredicate (Query.Predicate q)"

section \<open>The context and the driver\<close>

text \<open>
  A \<open>context.Context\<close>. The consultations of the context by the running operation
  are numbered from 0; \<open>Done = Some (t, e)\<close> says that the context is cancelled (or past
  its deadline) with error \<open>e\<close> from consultation \<open>t\<close> on, and \<open>Err ctx t\<close> is what
  \<open>ctx.Err()\<close> returns at consultation \<open>t\<close>. Once non-nil, \<open>ctx.Err()\<close> keeps returning
  the same error, so a test \<open>if ctx.Err() != nil { return ctx.Err() }\<close> is one
  consultation. \<open>Deadline\<close> is \<open>time.Until(dl)\<close> when \<open>ctx.Deadline()\<close> reports a
  deadline.
\<close>

record Context =
  Done :: "(nat \<times> error) option"
  Deadline :: "int option"

definition Err :: "Context \<Rightarrow> nat \<Rightarrow> error option" where
  "Err ctx t = (case Done ctx of None \<Rightarrow> None
                | Some (t0, e) \<Rightarrow> if t0 \<le> t then Some e else None)"

text \<open>
  A \<open>mongo.Cursor\<close> as this package reads it: the documents for which \<open>Next\<close> returns
  true, each with what \<open>Decode\<close> gives for it, and the result of \<open>Close\<close>.
\<close>

record Cursor =
  Docs :: "(error + mongoItem) list"
  CloseErr :: "error option"

text \<open>
  A \<open>mongo.Collection\<close>: what the database answers to each operation this package
  issues. \<open>ReplaceOne\<close> and \<open>DeleteOne\<close> answer with \<open>MatchedCount\<close> and
  \<open>DeletedCount\<close>, \<open>FindOne\<close> with the \<open>Err()\<close> of its result.
\<close>

record Collection =
  InsertMany :: "mongoItem list \<Rightarrow> error option"
  ReplaceOne :: "bsonM \<Rightarrow> mongoItem \<Rightarrow> error + int"
  DeleteOne :: "bsonM \<Rightarrow> error + int"
  FindOne :: "bsonM \<Rightarrow> error option"
  Find :: "bsonM \<Rightarrow> FindOptions \<Rightarrow> error + Cursor"
  CountDocuments :: "bsonM \<Rightarrow> CountOptions \<Rightarrow> error + int"

text \<open>The operations issued on the collection, in order, with their arguments.\<close>

datatype NativeCall =
    InsertManyCall "mongoItem list"
  | ReplaceOneCall bsonM mongoItem
  | DeleteOneCall bsonM
  | FindOneCall bsonM
  | FindCall bsonM FindOptions
  | CountDocumentsCall bsonM CountOptions

text \<open>\<open>resource.ItemList\<close>.\<close>

record ItemList =
  Total :: int
  Limit :: int
  Items :: "Item list"

section \<open>mongo.go\<close>

type_synonym Handler = "Context \<Rightarrow> error + Collection"

text \<open>\<open>NewHandler\<close>, for the collection \<open>s.Database(db).Collection(collection)\<close>.\<close>

definition NewHandler :: "Collection \<Rightarrow> Handler" where
  "NewHandler coll = (\<lambda>ctx. Inr coll)"

text \<open>The method \<open>c\<close> of \<open>Handler\<close>: consultation 0 of the context.\<close>

definition c :: "Handler \<Rightarrow> Context \<Rightarrow> error + Collection" where
  "c m ctx =
     (case Err ctx 0 of
        Some err \<Rightarrow> Inl err
      | None \<Rightarrow> (case m ctx of Inl err \<Rightarrow> Inl err | Inr coll \<Rightarrow> Inr coll))"

text \<open>
  \<open>errors.As\<close> with a target of type \<open>mongo.WriteException\<close>, and with one of type
  \<open>mongo.BulkWriteException\<close>: the first error of that type in the chain of wrapped
  errors, if any.
\<close>

fun as_WriteException :: "error \<Rightarrow> WriteError list option" where
  "as_WriteException (WriteException wes) = Some wes"
| "as_WriteException (Wrapped msg e) = as_WriteException e"
| "as_WriteException e = None"

fun as_BulkWriteException :: "error \<Rightarrow> WriteError list option" where
  "as_BulkWriteException (BulkWriteException wes) = Some wes"
| "as_BulkWriteException (Wrapped msg e) = as_BulkWriteException e"
| "as_BulkWriteException e = None"

definition isDup :: "error option \<Rightarrow> bool" where
  "isDup err =
     (case err of
        None \<Rightarrow> False
      | Some e \<Rightarrow>
          if (case as_WriteException e of
                Some wes \<Rightarrow> list_ex (\<lambda>we. Code we = 11000) wes | None \<Rightarrow> False) then True
          else if (case as_BulkWriteException e of
                Some wes \<Rightarrow> list_ex (\<lambda>we. Code we = 11000) wes | None \<Rightarrow> False) then True
          else False)"

text \<open>
  Every operation returns its Go result together with the calls it issued on the
  collection. In \<open>Insert\<close> the context is consulted again (consultation 1) after
  \<open>InsertMany\<close>.
\<close>

definition Insert :: "Handler \<Rightarrow> Context \<Rightarrow> Item list \<Rightarrow> error option \<times> NativeCall list" where
  "Insert m ctx items =
     (let mItems = map newMongoItem items
      in case c m ctx of
           Inl err \<Rightarrow> (Some err, [])
         | Inr coll \<Rightarrow>
             let err = InsertMany coll mItems;
                 err = (if isDup err then Some ErrConflict else err)
             in if Err ctx 1 \<noteq> None then (Err ctx 1, [InsertManyCall mItems])
                else (err, [InsertManyCall mItems]))"

text \<open>
  \<open>Update\<close>. After a replace that matched nothing, \<open>err\<close> is nil, so the first branch
  of the source's chain (\<open>if err != nil\<close>) is never taken; the chain then tests the
  result of \<open>FindOne\<close> against \<open>mongo.ErrNoDocuments\<close> and consults the context
  (consultation 1). \<open>Delete\<close> has the same chain.
\<close>

definition Update :: "Handler \<Rightarrow> Context \<Rightarrow> Item \<Rightarrow> Item \<Rightarrow> error option \<times> NativeCall list" where
  "Update m ctx item original =
     (let mItem = newMongoItem item
      in case c m ctx of
           Inl err \<Rightarrow> (Some err, [])
         | Inr coll \<Rightarrow>
             let s = fmupd ''_id'' (ID original) fmempty;
                 s = (if prefix ''p-'' (ETag original)
                      then fmupd ''_etag'' (M (fmupd ''$exists'' (AnyBool False) fmempty)) s
                      else fmupd ''_etag'' (AnyString (ETag original)) s)
             in (case ReplaceOne coll s mItem of
                  Inl err \<Rightarrow> (Some err, [ReplaceOneCall s mItem])
                | Inr MatchedCount \<Rightarrow>
                    if MatchedCount = 0
                    then let info = FindOne coll (fmupd ''_id'' (ID original) fmempty);
                             calls = [ReplaceOneCall s mItem,
                                      FindOneCall (fmupd ''_id'' (ID original) fmempty)]
                         in if info = Some ErrNoDocuments then (Some ErrNotFound, calls)
                            else if Err ctx 1 \<noteq> None then (Err ctx 1, calls)
                            else (Some ErrConflict, calls)
                    else (None, [ReplaceOneCall s mItem])))"

definition Delete :: "Handler \<Rightarrow> Context \<Rightarrow> Item \<Rightarrow> error option \<times> NativeCall list" where
  "Delete m ctx item =
     (case c m ctx of
        Inl err \<Rightarrow> (Some err, [])
      | Inr coll \<Rightarrow>
          let s = fmupd ''_id'' (ID item) fmempty;
              s = (if prefix ''p-'' (ETag item)
                   then fmupd ''_etag'' (M (fmupd ''$exists'' (AnyBool False) fmempty)) s
                   else fmupd ''_etag'' (AnyString (ETag item)) s)
          in (case DeleteOne coll s of
               Inl err \<Rightarrow> (Some err, [DeleteOneCall s])
             | Inr DeletedCount \<Rightarrow>
                 if DeletedCount = 0
                 then let info = FindOne coll (fmupd ''_id'' (ID item) fmempty);
                          calls = [DeleteOneCall s, FindOneCall (fmupd ''_id'' (ID item) fmempty)]
                      in if info = Some ErrNoDocuments then (Some ErrNotFound, calls)
                         else if Err ctx 1 \<noteq> None then (Err ctx 1, calls)
                         else (Some ErrConflict, calls)
                 else (None, [DeleteOneCall s])))"

text \<open>\<open>Count\<close> returns \<open>-1\<close> with every error.\<close>

definition Count :: "Handler \<Rightarrow> Context \<Rightarrow> Query \<Rightarrow> (int \<times> error option) \<times> NativeCall list" where
  "Count m ctx query =
     (case getQuery query of
        Inl err \<Rightarrow> ((- 1, Some err), [])
      | Inr q \<Rightarrow>
          (case c m ctx of
             Inl err \<Rightarrow> ((- 1, Some err), [])
           | Inr coll \<Rightarrow>
               let countOptions = \<lparr>CountOptions.MaxTime = Deadline ctx\<rparr>
               in (case CountDocuments coll q countOptions of
                    Inl err \<Rightarrow> ((- 1, Some err), [CountDocumentsCall q countOptions])
                  | Inr n \<Rightarrow> ((n, None), [CountDocumentsCall q countOptions]))))"

text \<open>
  Go's \<open>int\<close> has 64 bits on the platforms of the driver, and its \<open>+\<close> wraps around
  in two's complement. The values of type \<open>int\<close> are integers here, and \<open>int_add\<close> is
  that \<open>+\<close>: the sum, brought back into the range from \<open>-2^63\<close> to \<open>2^63 - 1\<close>.
  \<open>Find\<close> adds once, in \<open>Offset + len(Items)\<close>; the comparisons of \<open>int\<close> values are
  those of the integers, and the conversions between \<open>int\<close> and \<open>int64\<close> change nothing.
\<close>

definition int_add :: "int \<Rightarrow> int \<Rightarrow> int" where
  "int_add a b = (a + b + 2 ^ 63) mod 2 ^ 64 - 2 ^ 63"

text \<open>
  The loop of \<open>Find\<close> over the cursor: \<open>t\<close> counts the consultations of the context,
  one after each decoded document.
\<close>

fun Find_loop ::
  "(any \<Rightarrow> string) \<Rightarrow> Context \<Rightarrow> (error + mongoItem) list \<Rightarrow> nat \<Rightarrow> Item list
     \<Rightarrow> error + Item list" where
  "Find_loop Sprint ctx [] t items = Inr items"
| "Find_loop Sprint ctx (d # ds) t items =
     (case d of
        Inl err \<Rightarrow> Inl err
      | Inr mItem \<Rightarrow>
          (case Err ctx t of
             Some err \<Rightarrow> Inl err
           | None \<Rightarrow> Find_loop Sprint ctx ds (Suc t) (items @ [newItem Sprint mItem])))"

definition Find ::
  "(any \<Rightarrow> string) \<Rightarrow> Handler \<Rightarrow> Context \<Rightarrow> Query \<Rightarrow> (error + ItemList) \<times> NativeCall list" where
  "Find Sprint m ctx q =
     (if (case Window q of None \<Rightarrow> False | Some w \<Rightarrow> Window.Limit w = 0)
      then (case Count m ctx q of
              ((n, Some err), calls) \<Rightarrow> (Inl err, calls)
            | ((n, None), calls) \<Rightarrow>
                (Inr \<lparr>Total = n, Limit = Window.Limit (the (Window q)), Items = []\<rparr>, calls))
      else
        (case getQuery q of
           Inl err \<Rightarrow> (Inl err, [])
         | Inr qry \<Rightarrow>
             let findOptions = options_Find\<lparr>FindOptions.Sort := Some (getSort q)\<rparr>;
                 findOptions = findOptions\<lparr>FindOptions.Projection := getProjection q\<rparr>
             in (case c m ctx of
                  Inl err \<Rightarrow> (Inl err, [])
                | Inr coll \<Rightarrow>
                    let limit = (case Window q of None \<Rightarrow> - 1 | Some w \<Rightarrow> Window.Limit w);
                        findOptions = (case Window q of None \<Rightarrow> findOptions
                                       | Some w \<Rightarrow> applyWindow findOptions w);
                        findOptions = (case Deadline ctx of None \<Rightarrow> findOptions
                                       | Some dl \<Rightarrow> findOptions\<lparr>FindOptions.MaxTime := Some dl\<rparr>)
                    in (case Collection.Find coll qry findOptions of
                         Inl err \<Rightarrow> (Inl err, [FindCall qry findOptions])
                       | Inr cursor \<Rightarrow>
                           (case Find_loop Sprint ctx (Docs cursor) 1 [] of
                              Inl err \<Rightarrow> (Inl err, [FindCall qry findOptions])
                            | Inr items \<Rightarrow>
                                (case CloseErr cursor of
                                   Some err \<Rightarrow> (Inl err, [FindCall qry findOptions])
                                 | None \<Rightarrow>
                                     let n = int (length items);
                                         total =
                                           (if limit < 0 \<or> n < limit
                                            then (if (case Window q of None \<Rightarrow> False
                                                      | Some w \<Rightarrow> Offset w > 0)
                                                  then (if n > 0 then int_add (Offset (the (Window q))) n
                                                        else - 1)
                                                  else n)
                                            else - 1)
                                     in (Inr \<lparr>Total = total, Limit = limit, Items = items\<rparr>,
                                         [FindCall qry findOptions])))))))"

section \<open>Notions of the specification\<close>

text \<open>
  The filter of a conditional write as the specification words it: the identifier, plus a
  guard on the stored tag, which must be absent for a tag with the prefix \<open>p-\<close> and
  equal to the tag otherwise.
\<close>

definition match_filter :: "Item \<Rightarrow> bsonM" where
  "match_filter it =
     fmupd ''_etag'' (if prefix ''p-'' (ETag it)
                      then M (fmupd ''$exists'' (AnyBool False) fmempty)
                      else AnyString (ETag it))
       (fmupd ''_id'' (ID it) fmempty)"

text \<open>
  Keeping, for each key of an ordered document, only its last entry, the survivors in
  their order.
\<close>

fun keep_last :: "D \<Rightarrow> D" where
  "keep_last [] = []"
| "keep_last (e # es) = (if Key e \<in> Key ` set es then keep_last es else e # keep_last es)"

text \<open>
  The node kinds outside the allow-list of the compiler, the sub-expressions of a node,
  and all the nodes of an expression tree.
\<close>

fun outside_allow_list :: "Expression \<Rightarrow> bool" where
  "outside_allow_list (Expression.Predicate t) = True"
| "outside_allow_list (PredicatePtr t) = True"
| "outside_allow_list (Other n) = True"
| "outside_allow_list e = False"

fun subexps :: "Expression \<Rightarrow> Expression list" where
  "subexps (And t) = t"
| "subexps (Or t) = t"
| "subexps (ElemMatch f t) = t"
| "subexps e = []"

fun nodes :: "Expression \<Rightarrow> Expression list" where
  "nodes (And t) = And t # concat (map nodes t)"
| "nodes (Or t) = Or t # concat (map nodes t)"
| "nodes (ElemMatch f t) = ElemMatch f t # concat (map nodes t)"
| "nodes (Expression.Predicate t) = Expression.Predicate t # concat (map nodes t)"
| "nodes (PredicatePtr t) = PredicatePtr t # concat (map nodes t)"
| "nodes e = [e]"

text \<open>
  \<open>rejected q\<close>: a node outside the allow-list stands where the type switch of
  \<open>translatePredicate\<close> is applied, that is, among the expressions of \<open>q\<close> or, for a
  sub-expression of one of them, among the expressions of the predicate that
  \<open>expToPredicate\<close> makes of it.
\<close>

function rejected :: "Expression list \<Rightarrow> bool" where
  "rejected q =
     list_ex (\<lambda>e. outside_allow_list e \<or>
                   list_ex (\<lambda>sub. rejected (expToPredicate sub)) (subexps e)) q"
  by pat_completeness auto

termination
proof -
  have a: "size_list size (expToPredicate sub) \<le> Suc (size sub)" for sub
    by (cases sub) simp_all
  have c: "size e < size_list size q" if "e \<in> set q" for e :: Expression and q
    using that by (induction q) auto
  have b: "size sub < size e" if "sub \<in> set (subexps e)" for sub e
    using that by (cases e) (simp_all add: less_SucI c)
  show ?thesis
  proof (relation "measure (size_list size)")
    fix q e sub
    assume "e \<in> set q" "sub \<in> set (subexps e)"
    then have "size_list size (expToPredicate sub) < size_list size q"
      using a [of sub] b [of sub e] c [of e q] by linarith
    then show "(expToPredicate sub, q) \<in> measure (size_list size)"
      by simp
  qed simp
qed

declare rejected.simps [simp del]

text \<open>
  The key of the filter that the case of \<open>translatePredicate\<close> for a node assigns, and
  the field of a leaf expression.
\<close>

fun filter_key :: "Expression \<Rightarrow> string option" where
  "filter_key (And t) = Some ''$and''"
| "filter_key (Or t) = Some ''$or''"
| "filter_key (ElemMatch f t) = Some (getField f)"
| "filter_key (In f vs) = Some (getField f)"
| "filter_key (NotIn f vs) = Some (getField f)"
| "filter_key (Exist f) = Some (getField f)"
| "filter_key (NotExist f) = Some (getField f)"
| "filter_key (Equal f v) = Some (getField f)"
| "filter_key (NotEqual f v) = Some (getField f)"
| "filter_key (GreaterThan f v) = Some (getField f)"
| "filter_key (GreaterOrEqual f v) = Some (getField f)"
| "filter_key (LowerThan f v) = Some (getField f)"
| "filter_key (LowerOrEqual f v) = Some (getField f)"
| "filter_key (Regex f v negated) = Some (getField f)"
| "filter_key e = None"

fun leaf_field :: "Expression \<Rightarrow> string option" where
  "leaf_field (In f vs) = Some f"
| "leaf_field (NotIn f vs) = Some f"
| "leaf_field (Exist f) = Some f"
| "leaf_field (NotExist f) = Some f"
| "leaf_field (Equal f v) = Some f"
| "leaf_field (NotEqual f v) = Some f"
| "leaf_field (GreaterThan f v) = Some f"
| "leaf_field (GreaterOrEqual f v) = Some f"
| "leaf_field (LowerThan f v) = Some f"
| "leaf_field (LowerOrEqual f v) = Some f"
| "leaf_field (Regex f v negated) = Some f"
| "leaf_field e = None"

section \<open>Sample inputs\<close>

text \<open>A collection on which every operation succeeds and every write matches one document.\<close>

definition quiet_collection :: Collection where
  "quiet_collection =
     \<lparr>InsertMany = (\<lambda>docs. None), ReplaceOne = (\<lambda>f doc. Inr 1), DeleteOne = (\<lambda>f. Inr 1),
      FindOne = (\<lambda>f. None), Find = (\<lambda>f fo. Inr \<lparr>Docs = [], CloseErr = None\<rparr>),
      CountDocuments = (\<lambda>f co. Inr 0)\<rparr>"

text \<open>
  Collections on which the conditional writes match no document: on the first the
  document is still found by its identifier, on the second it is not.
\<close>

definition unmatched_collection :: Collection where
  "unmatched_collection =
     quiet_collection\<lparr>ReplaceOne := (\<lambda>f doc. Inr 0), DeleteOne := (\<lambda>f. Inr 0)\<rparr>"

definition vanished_collection :: Collection where
  "vanished_collection = unmatched_collection\<lparr>FindOne := (\<lambda>f. Some ErrNoDocuments)\<rparr>"

text \<open>
  Collections on which the insert fails: with a duplicate key in a bulk write exception,
  in a write exception, in a wrapped write exception after another write error, and
  with an error of another kind.
\<close>

definition duplicate_key :: WriteError where
  "duplicate_key = \<lparr>Code = 11000, Message = ''E11000 duplicate key''\<rparr>"

definition bulk_duplicate_collection :: Collection where
  "bulk_duplicate_collection =
     quiet_collection\<lparr>InsertMany := (\<lambda>docs. Some (BulkWriteException [duplicate_key]))\<rparr>"

definition write_duplicate_collection :: Collection where
  "write_duplicate_collection =
     quiet_collection\<lparr>InsertMany := (\<lambda>docs. Some (WriteException [duplicate_key]))\<rparr>"

definition wrapped_duplicate :: error where
  "wrapped_duplicate =
     Wrapped ''insert'' (WriteException [\<lparr>Code = 121, Message = ''validation''\<rparr>, duplicate_key])"

definition wrapped_duplicate_collection :: Collection where
  "wrapped_duplicate_collection =
     quiet_collection\<lparr>InsertMany := (\<lambda>docs. Some wrapped_duplicate)\<rparr>"

definition unreachable_collection :: Collection where
  "unreachable_collection =
     quiet_collection\<lparr>InsertMany := (\<lambda>docs. Some (OtherError ''connection reset''))\<rparr>"

text \<open>
  \<open>context.Background()\<close>, a context cancelled between the first and the second time
  an operation consults it, and one whose deadline passes then.
\<close>

definition background :: Context where
  "background = \<lparr>Done = None, Deadline = None\<rparr>"

definition cancelled_meanwhile :: Context where
  "cancelled_meanwhile = \<lparr>Done = Some (1, Canceled), Deadline = None\<rparr>"

definition deadline_passed :: Context where
  "deadline_passed = \<lparr>Done = Some (1, DeadlineExceeded), Deadline = Some 0\<rparr>"

text \<open>
  Items: one with a tag, one with an object id and no tag, and the latter with the tag
  that \<open>newItem\<close> gives it. A stand-in for \<open>fmt.Sprint\<close>.
\<close>

definition sample_item :: Item where
  "sample_item = \<lparr>ID = AnyString ''a1'', ETag = ''e1'', Updated = 7,
                   Payload = Some (fmupd ''n'' (AnyInt 3) (fmupd ''id'' (AnyString ''a1'') fmempty))\<rparr>"

definition untagged_item :: Item where
  "untagged_item = \<lparr>ID = ObjectID [0x5f, 0x01], ETag = '''', Updated = 8,
                     Payload = Some (fmupd ''id'' (AnyInt 9) (fmupd ''n'' (AnyInt 4) fmempty))\<rparr>"

definition synthetic_item :: Item where
  "synthetic_item = untagged_item\<lparr>ETag := ''p-5f01''\<rparr>"

definition sample_Sprint :: "any \<Rightarrow> string" where
  "sample_Sprint v = (case v of AnyString s \<Rightarrow> s | AnyNil \<Rightarrow> ''<nil>'' | _ \<Rightarrow> ''?'')"

text \<open>
  A collection whose find returns two documents and whose count is 5, and queries: one
  with the limit 0, one with an offset and a limit, one whose sort names a field twice
  and the identifier under both of its names.
\<close>

definition stored_docs :: "(error + mongoItem) list" where
  "stored_docs =
     [Inr \<lparr>mongoItem.ID = AnyString ''a1'', mongoItem.ETag = ''e1'', mongoItem.Updated = 7,
           mongoItem.Payload = Some (fmupd ''n'' (AnyInt 3) fmempty)\<rparr>,
      Inr \<lparr>mongoItem.ID = ObjectID [0x5f, 0x01], mongoItem.ETag = '''', mongoItem.Updated = 8,
           mongoItem.Payload = None\<rparr>]"

definition two_docs_collection :: Collection where
  "two_docs_collection =
     quiet_collection\<lparr>Collection.Find := (\<lambda>f fo. Inr \<lparr>Docs = stored_docs, CloseErr = None\<rparr>),
                       CountDocuments := (\<lambda>f co. Inr 5)\<rparr>"

definition zero_limit_query :: Query where
  "zero_limit_query =
     \<lparr>Query.Predicate = [Equal ''id'' (AnyString ''a1'')], Query.Sort = [],
      Query.Projection = [], Window = Some \<lparr>Offset = 0, Limit = 0\<rparr>\<rparr>"

definition paged_query :: Query where
  "paged_query =
     \<lparr>Query.Predicate = [], Query.Sort = [], Query.Projection = [],
      Window = Some \<lparr>Offset = 10, Limit = 5\<rparr>\<rparr>"

definition resorted_query :: Query where
  "resorted_query =
     \<lparr>Query.Predicate = [],
      Query.Sort = [\<lparr>SortField.Name = ''a'', Reversed = False\<rparr>,
                    \<lparr>SortField.Name = ''id'', Reversed = True\<rparr>,
                    \<lparr>SortField.Name = ''a'', Reversed = True\<rparr>,
                    \<lparr>SortField.Name = ''_id'', Reversed = False\<rparr>],
      Query.Projection = [], Window = None\<rparr>"

text \<open>A query without limit whose offset is the greatest value of Go's \<open>int\<close>.\<close>

definition far_offset_query :: Query where
  "far_offset_query =
     \<lparr>Query.Predicate = [], Query.Sort = [], Query.Projection = [],
      Window = Some \<lparr>Offset = 9223372036854775807, Limit = - 1\<rparr>\<rparr>"

section \<open>Auxiliary facts\<close>

declare translatePredicate.simps [simp del]

lemma c_NewHandler:
  "c (NewHandler coll) ctx = (case Err ctx 0 of None \<Rightarrow> Inr coll | Some e \<Rightarrow> Inl e)"
  by (simp add: c_def NewHandler_def split: option.split)

lemma c_background: "c (NewHandler coll) background = Inr coll"
  by (simp add: c_NewHandler Err_def background_def)

lemma fmfilter_neq_fmdrop: "fmfilter (\<lambda>k. k \<noteq> a) m = fmdrop a m"
  by (rule fmap_ext) simp

section \<open>The item codec\<close>

text \<open>
  Claim C9. For every item, \<open>newItem (newMongoItem item)\<close> has the identifier and the
  timestamp of the item; its tag is the tag of the item, or, when that tag is empty,
  \<open>p-\<close> followed by the hexadecimal form of the identifier when the identifier is an
  object id and by its \<open>fmt.Sprint\<close> form otherwise; its payload is the payload of the
  item without the key \<open>id\<close>, to which the identifier is added under the key \<open>id\<close>.
\<close>

theorem codec_roundtrip:
  "newItem Sprint (newMongoItem i) =
     \<lparr>ID = ID i,
      ETag = (if ETag i = ''''
              then ''p-'' @ (case ID i of ObjectID v \<Rightarrow> Hex v | _ \<Rightarrow> Sprint (ID i))
              else ETag i),
      Updated = Updated i,
      Payload = Some (fmupd ''id'' (ID i)
                  (fmdrop ''id'' (case Payload i of None \<Rightarrow> fmempty | Some pl \<Rightarrow> pl)))\<rparr>"
  by (cases "ID i") (simp_all add: newItem_def newMongoItem_def Let_def fmfilter_neq_fmdrop)

theorem codec_roundtrip_witness:
  "newItem sample_Sprint (newMongoItem untagged_item) =
     \<lparr>ID = ObjectID [0x5f, 0x01], ETag = ''p-5f01'', Updated = 8,
      Payload = Some (fmupd ''id'' (ObjectID [0x5f, 0x01]) (fmupd ''n'' (AnyInt 4) fmempty))\<rparr>"
proof -
  have "fmdrop ''id'' (fmupd ''id'' (AnyInt 9) (fmupd ''n'' (AnyInt 4) fmempty))
          = fmupd ''n'' (AnyInt 4) fmempty"
    by (rule fmap_ext) simp
  then show ?thesis
    using codec_roundtrip [of sample_Sprint untagged_item]
    by (simp add: untagged_item_def Hex_def hexdigit_def)
qed

section \<open>Conditional writes\<close>

lemma match_filter_keys:
  "fmdom (match_filter it) = {|''_id'', ''_etag''|}"
  "fmlookup (match_filter it) ''_id'' = Some (ID it)"
  "fmlookup (match_filter it) ''_etag'' =
     Some (if prefix ''p-'' (ETag it) then M (fmupd ''$exists'' (AnyBool False) fmempty)
           else AnyString (ETag it))"
  by (auto simp add: match_filter_def)

lemma Update_first_call:
  "c m ctx = Inr coll \<Longrightarrow>
   \<exists>rest. snd (Update m ctx item original) =
     ReplaceOneCall (match_filter original) (newMongoItem item) # rest"
  by (simp add: Update_def Let_def match_filter_def split: sum.split)

lemma Delete_first_call:
  "c m ctx = Inr coll \<Longrightarrow>
   \<exists>rest. snd (Delete m ctx item) = DeleteOneCall (match_filter item) # rest"
  by (simp add: Delete_def Let_def match_filter_def split: sum.split)

lemma no_handle_no_call:
  "c m ctx = Inl err \<Longrightarrow> snd (Update m ctx item original) = [] \<and> snd (Delete m ctx item) = []"
  by (simp add: Update_def Delete_def Let_def)

text \<open>
  Claim C4. For every \<open>Update (item, original)\<close> and \<open>Delete (item)\<close> that obtains
  the collection, the first call issued is the native write, and its filter has exactly
  the keys \<open>_id\<close> and \<open>_etag\<close>: \<open>_id\<close> is the identifier of the original (of the item
  for \<open>Delete\<close>); \<open>_etag\<close> is the document \<open>{$exists: false}\<close> when the tag starts with
  \<open>p-\<close>, and the tag string otherwise. When the collection is not obtained, no call is
  issued.
\<close>

theorem write_filter_guard:
  "(\<forall>coll. c m ctx = Inr coll \<longrightarrow>
      (\<exists>s rest. snd (Update m ctx item original) = ReplaceOneCall s (newMongoItem item) # rest \<and>
         fmdom s = {|''_id'', ''_etag''|} \<and>
         fmlookup s ''_id'' = Some (ID original) \<and>
         fmlookup s ''_etag'' =
           Some (if prefix ''p-'' (ETag original)
                 then M (fmupd ''$exists'' (AnyBool False) fmempty)
                 else AnyString (ETag original))) \<and>
      (\<exists>s rest. snd (Delete m ctx item) = DeleteOneCall s # rest \<and>
         fmdom s = {|''_id'', ''_etag''|} \<and>
         fmlookup s ''_id'' = Some (ID item) \<and>
         fmlookup s ''_etag'' =
           Some (if prefix ''p-'' (ETag item)
                 then M (fmupd ''$exists'' (AnyBool False) fmempty)
                 else AnyString (ETag item)))) \<and>
   (\<forall>err. c m ctx = Inl err \<longrightarrow>
      snd (Update m ctx item original) = [] \<and> snd (Delete m ctx item) = [])"
proof (intro conjI allI impI)
  fix coll
  assume h: "c m ctx = Inr coll"
  from Update_first_call [OF h] obtain rest
    where "snd (Update m ctx item original) =
             ReplaceOneCall (match_filter original) (newMongoItem item) # rest" by blast
  then show "\<exists>s rest. snd (Update m ctx item original) = ReplaceOneCall s (newMongoItem item) # rest \<and>
         fmdom s = {|''_id'', ''_etag''|} \<and>
         fmlookup s ''_id'' = Some (ID original) \<and>
         fmlookup s ''_etag'' =
           Some (if prefix ''p-'' (ETag original)
                 then M (fmupd ''$exists'' (AnyBool False) fmempty)
                 else AnyString (ETag original))"
    using match_filter_keys [of original] by blast
  from Delete_first_call [OF h] obtain rest
    where "snd (Delete m ctx item) = DeleteOneCall (match_filter item) # rest" by blast
  then show "\<exists>s rest. snd (Delete m ctx item) = DeleteOneCall s # rest \<and>
         fmdom s = {|''_id'', ''_etag''|} \<and>
         fmlookup s ''_id'' = Some (ID item) \<and>
         fmlookup s ''_etag'' =
           Some (if prefix ''p-'' (ETag item)
                 then M (fmupd ''$exists'' (AnyBool False) fmempty)
                 else AnyString (ETag item))"
    using match_filter_keys [of item] by blast
next
  fix err
  assume "c m ctx = Inl err"
  then show "snd (Update m ctx item original) = []" "snd (Delete m ctx item) = []"
    using no_handle_no_call by blast+
qed

theorem write_filter_guard_witness:
  "c (NewHandler quiet_collection) background = Inr quiet_collection \<and>
   snd (Update (NewHandler quiet_collection) background sample_item synthetic_item) =
     [ReplaceOneCall
        (fmupd ''_etag'' (M (fmupd ''$exists'' (AnyBool False) fmempty))
           (fmupd ''_id'' (ObjectID [0x5f, 0x01]) fmempty))
        (newMongoItem sample_item)] \<and>
   snd (Delete (NewHandler quiet_collection) background sample_item) =
     [DeleteOneCall
        (fmupd ''_etag'' (AnyString ''e1'') (fmupd ''_id'' (AnyString ''a1'') fmempty))]"
  using write_filter_guard [of "NewHandler quiet_collection" background sample_item synthetic_item]
  by (simp add: c_background Update_def Delete_def Let_def quiet_collection_def
      sample_item_def untagged_item_def synthetic_item_def)

text \<open>
  Claim C1, amended. For \<open>Update (item, original)\<close> and \<open>Delete (item)\<close>, once the
  collection is obtained: when the native write with the identifier and tag filter
  succeeds and matches no document, the operation fetches the document by its identifier
  alone and returns \<open>NotFound\<close> if that fetch reports that there is no document, also
  when the context has been cancelled; if the fetch finds a document, it returns the error
  of the context when the context has been cancelled, and \<open>Conflict\<close> otherwise.
\<close>

theorem zero_match_disambiguation:
  assumes "c m ctx = Inr coll"
  shows "(ReplaceOne coll (match_filter original) (newMongoItem item) = Inr 0 \<longrightarrow>
            snd (Update m ctx item original) =
              [ReplaceOneCall (match_filter original) (newMongoItem item),
               FindOneCall (fmupd ''_id'' (ID original) fmempty)] \<and>
            (FindOne coll (fmupd ''_id'' (ID original) fmempty) = Some ErrNoDocuments \<longrightarrow>
               fst (Update m ctx item original) = Some ErrNotFound) \<and>
            (FindOne coll (fmupd ''_id'' (ID original) fmempty) = None \<longrightarrow>
               fst (Update m ctx item original) =
                 (case Err ctx 1 of None \<Rightarrow> Some ErrConflict | Some e \<Rightarrow> Some e))) \<and>
         (DeleteOne coll (match_filter item) = Inr 0 \<longrightarrow>
            snd (Delete m ctx item) =
              [DeleteOneCall (match_filter item),
               FindOneCall (fmupd ''_id'' (ID item) fmempty)] \<and>
            (FindOne coll (fmupd ''_id'' (ID item) fmempty) = Some ErrNoDocuments \<longrightarrow>
               fst (Delete m ctx item) = Some ErrNotFound) \<and>
            (FindOne coll (fmupd ''_id'' (ID item) fmempty) = None \<longrightarrow>
               fst (Delete m ctx item) =
                 (case Err ctx 1 of None \<Rightarrow> Some ErrConflict | Some e \<Rightarrow> Some e)))"
  using assms
  by (auto simp add: Update_def Delete_def Let_def match_filter_def
      split: sum.splits option.splits)

theorem zero_match_disambiguation_witness:
  "c (NewHandler unmatched_collection) deadline_passed = Inr unmatched_collection \<and>
   Err deadline_passed 1 = Some DeadlineExceeded \<and>
   fst (Update (NewHandler unmatched_collection) deadline_passed sample_item sample_item)
     = Some DeadlineExceeded \<and>
   fst (Delete (NewHandler unmatched_collection) deadline_passed sample_item)
     = Some DeadlineExceeded \<and>
   fst (Update (NewHandler unmatched_collection) background sample_item sample_item)
     = Some ErrConflict \<and>
   fst (Update (NewHandler vanished_collection) background sample_item sample_item)
     = Some ErrNotFound"
proof -
  have h: "c (NewHandler unmatched_collection) deadline_passed = Inr unmatched_collection"
    by (simp add: c_NewHandler Err_def deadline_passed_def)
  have hb: "c (NewHandler unmatched_collection) background = Inr unmatched_collection"
    by (rule c_background)
  have hv: "c (NewHandler vanished_collection) background = Inr vanished_collection"
    by (rule c_background)
  have e: "Err deadline_passed 1 = Some DeadlineExceeded"
    by (simp add: Err_def deadline_passed_def)
  have eb: "Err background 1 = None"
    by (simp add: Err_def background_def)
  show ?thesis
    using h e eb
      zero_match_disambiguation [OF h, of sample_item sample_item]
      zero_match_disambiguation [OF hb, of sample_item sample_item]
      zero_match_disambiguation [OF hv, of sample_item sample_item]
    by (simp add: unmatched_collection_def vanished_collection_def quiet_collection_def)
qed

text \<open>
  Claim C1 as stated fails: the fetch reports that there is no document while the
  context is cancelled, and \<open>Update\<close> returns \<open>NotFound\<close>, not the error of the context.
\<close>

theorem zero_match_cancelled_counterexample:
  "Err cancelled_meanwhile 1 = Some Canceled \<and>
   Update (NewHandler vanished_collection) cancelled_meanwhile sample_item sample_item
     = (Some ErrNotFound,
        [ReplaceOneCall (match_filter sample_item) (newMongoItem sample_item),
         FindOneCall (fmupd ''_id'' (ID sample_item) fmempty)])"
  by (simp add: Update_def c_NewHandler Err_def cancelled_meanwhile_def vanished_collection_def
      unmatched_collection_def quiet_collection_def Let_def sample_item_def match_filter_def)

section \<open>Insert\<close>

text \<open>
  Claim C3, amended. For \<open>Insert (items)\<close>: when the context is already cancelled or
  past its deadline at the start, its error is returned and nothing is inserted. Once the
  collection is obtained, if the context reports an error after the native insert call
  returns, that error is returned in preference to every result of the native call,
  including a duplicate-key failure already remapped to \<open>Conflict\<close>; if the context
  reports none, a duplicate-key failure gives \<open>Conflict\<close> and any other result of the
  native call is returned as it is.
\<close>

theorem insert_context_precedence:
  "(\<forall>e. Err ctx 0 = Some e \<longrightarrow> Insert m ctx items = (Some e, [])) \<and>
   (\<forall>coll. c m ctx = Inr coll \<longrightarrow>
      Insert m ctx items =
        (case Err ctx 1 of
           Some e \<Rightarrow> Some e
         | None \<Rightarrow> if isDup (InsertMany coll (map newMongoItem items)) then Some ErrConflict
                   else InsertMany coll (map newMongoItem items),
         [InsertManyCall (map newMongoItem items)]))"
  by (auto simp add: Insert_def c_def Let_def split: option.splits)

theorem insert_context_precedence_witness:
  "c (NewHandler unreachable_collection) deadline_passed = Inr unreachable_collection \<and>
   Err deadline_passed 1 = Some DeadlineExceeded \<and>
   Insert (NewHandler unreachable_collection) deadline_passed [sample_item]
     = (Some DeadlineExceeded, [InsertManyCall [newMongoItem sample_item]]) \<and>
   Insert (NewHandler unreachable_collection) background [sample_item]
     = (Some (OtherError ''connection reset''), [InsertManyCall [newMongoItem sample_item]])"
proof -
  have h: "c (NewHandler unreachable_collection) deadline_passed = Inr unreachable_collection"
    by (simp add: c_NewHandler Err_def deadline_passed_def)
  have hb: "c (NewHandler unreachable_collection) background = Inr unreachable_collection"
    by (rule c_background)
  have e: "Err deadline_passed 1 = Some DeadlineExceeded"
    by (simp add: Err_def deadline_passed_def)
  have eb: "Err background 1 = None"
    by (simp add: Err_def background_def)
  show ?thesis
    using h hb e eb
      insert_context_precedence [of deadline_passed "NewHandler unreachable_collection" "[sample_item]"]
      insert_context_precedence [of background "NewHandler unreachable_collection" "[sample_item]"]
    by (simp add: unreachable_collection_def quiet_collection_def isDup_def)
qed

text \<open>
  Claim C3 as stated fails: the native insert fails with a duplicate key, which
  \<open>isDup\<close> recognises, the context is cancelled when the call returns, and \<open>Insert\<close>
  returns the error of the context, not \<open>Conflict\<close>.
\<close>

theorem insert_conflict_replaced_counterexample:
  "isDup (Some (BulkWriteException [duplicate_key])) \<and>
   Err cancelled_meanwhile 1 = Some Canceled \<and>
   Insert (NewHandler bulk_duplicate_collection) cancelled_meanwhile [sample_item, sample_item]
     = (Some Canceled, [InsertManyCall [newMongoItem sample_item, newMongoItem sample_item]])"
  by (simp add: Insert_def c_NewHandler Err_def cancelled_meanwhile_def
      bulk_duplicate_collection_def quiet_collection_def duplicate_key_def Let_def isDup_def)

text \<open>
  Claim C7, amended. For \<open>Insert (items)\<close>, once the collection is obtained: if the
  native bulk insert fails with an error in which \<open>errors.As\<close> finds a write exception
  or a bulk write exception having a write error with the code 11000, the returned error
  is \<open>Conflict\<close>, provided the context reports no error when the native call returns.
\<close>

theorem insert_duplicate_conflict:
  assumes "c m ctx = Inr coll"
      and "InsertMany coll (map newMongoItem items) = Some err"
      and "as_WriteException err = Some wes \<or> as_BulkWriteException err = Some wes"
      and "we \<in> set wes" and "Code we = 11000"
      and "Err ctx 1 = None"
  shows "isDup (Some err) \<and> fst (Insert m ctx items) = Some ErrConflict"
proof -
  have "list_ex (\<lambda>we. Code we = 11000) wes"
    using assms(4,5) by (auto simp add: list_ex_iff)
  then have "isDup (Some err)"
    using assms(3) by (auto simp add: isDup_def)
  then show ?thesis
    using assms(1,2,6) by (simp add: Insert_def Let_def)
qed

theorem insert_duplicate_conflict_witness:
  "c (NewHandler wrapped_duplicate_collection) background = Inr wrapped_duplicate_collection \<and>
   InsertMany wrapped_duplicate_collection (map newMongoItem [sample_item, sample_item])
     = Some wrapped_duplicate \<and>
   as_WriteException wrapped_duplicate
     = Some [\<lparr>Code = 121, Message = ''validation''\<rparr>, duplicate_key] \<and>
   Code duplicate_key = 11000 \<and>
   Err background 1 = None \<and>
   fst (Insert (NewHandler wrapped_duplicate_collection) background [sample_item, sample_item])
     = Some ErrConflict"
proof -
  let ?wes = "[\<lparr>Code = 121, Message = ''validation''\<rparr>, duplicate_key]"
  have h1: "c (NewHandler wrapped_duplicate_collection) background
              = Inr wrapped_duplicate_collection"
    by (rule c_background)
  have h2: "InsertMany wrapped_duplicate_collection (map newMongoItem [sample_item, sample_item])
              = Some wrapped_duplicate"
    by (simp add: wrapped_duplicate_collection_def)
  have w: "as_WriteException wrapped_duplicate = Some ?wes"
    by (simp add: wrapped_duplicate_def)
  then have h3: "as_WriteException wrapped_duplicate = Some ?wes \<or>
                 as_BulkWriteException wrapped_duplicate = Some ?wes"
    by simp
  have h4: "duplicate_key \<in> set ?wes" by simp
  have h5: "Code duplicate_key = 11000" by (simp add: duplicate_key_def)
  have h6: "Err background 1 = None" by (simp add: Err_def background_def)
  show ?thesis
    using h1 h2 w h5 h6 insert_duplicate_conflict [OF h1 h2 h3 h4 h5 h6] by simp
qed

text \<open>
  Claim C7 as stated fails: the native insert fails with a duplicate key in a write
  exception, the deadline of the context has passed when the call returns, and \<open>Insert\<close>
  returns \<open>DeadlineExceeded\<close>, not \<open>Conflict\<close>.
\<close>

theorem insert_duplicate_deadline_counterexample:
  "InsertMany write_duplicate_collection (map newMongoItem [sample_item, sample_item])
     = Some (WriteException [duplicate_key]) \<and>
   Code duplicate_key = 11000 \<and>
   fst (Insert (NewHandler write_duplicate_collection) deadline_passed [sample_item, sample_item])
     = Some DeadlineExceeded"
  by (simp add: Insert_def c_NewHandler Err_def deadline_passed_def
      write_duplicate_collection_def quiet_collection_def duplicate_key_def Let_def isDup_def)

section \<open>Find\<close>

text \<open>
  Claim C6. For every \<open>Find (descriptor)\<close> whose window is present with limit 0,
  \<open>Find\<close> issues no native find: it issues exactly the calls of \<open>Count\<close> with the same
  descriptor, returns the error of that count if it fails, and otherwise an empty item
  list whose total is the count and whose limit is 0.
\<close>

theorem find_zero_limit:
  assumes "Window q = Some w" and "Window.Limit w = 0"
  shows "Find Sprint m ctx q =
           (case Count m ctx q of
              ((n, Some err), calls) \<Rightarrow> (Inl err, calls)
            | ((n, None), calls) \<Rightarrow> (Inr \<lparr>Total = n, Limit = 0, Items = []\<rparr>, calls)) \<and>
         snd (Find Sprint m ctx q) = snd (Count m ctx q) \<and>
         (\<forall>qry fo. FindCall qry fo \<notin> set (snd (Find Sprint m ctx q)))"
  using assms
  by (auto simp add: Find_def Count_def Let_def split: option.splits sum.splits prod.splits)

theorem find_zero_limit_witness:
  "Window zero_limit_query = Some \<lparr>Offset = 0, Limit = 0\<rparr> \<and>
   Find sample_Sprint (NewHandler two_docs_collection) background zero_limit_query
     = (Inr \<lparr>Total = 5, Limit = 0, Items = []\<rparr>,
        [CountDocumentsCall (fmupd ''_id'' (AnyString ''a1'') fmempty)
           \<lparr>CountOptions.MaxTime = None\<rparr>])"
proof -
  have h1: "Window zero_limit_query = Some \<lparr>Offset = 0, Limit = 0\<rparr>"
    by (simp add: zero_limit_query_def)
  have h2: "Window.Limit \<lparr>Offset = 0, Limit = 0\<rparr> = 0" by simp
  have cnt: "Count (NewHandler two_docs_collection) background zero_limit_query =
               ((5, None), [CountDocumentsCall (fmupd ''_id'' (AnyString ''a1'') fmempty)
                              \<lparr>CountOptions.MaxTime = None\<rparr>])"
    by (simp add: Count_def getQuery_def translatePredicate.simps getField_def c_NewHandler
        Err_def background_def Let_def zero_limit_query_def two_docs_collection_def
        quiet_collection_def)
  show ?thesis
    using h1 find_zero_limit [OF h1 h2, of sample_Sprint "NewHandler two_docs_collection" background]
      cnt
    by simp
qed

lemma int_add_in_range: "0 \<le> a + b \<Longrightarrow> a + b < 2 ^ 63 \<Longrightarrow> int_add a b = a + b"
  by (simp add: int_add_def)

text \<open>
  Claim C2. For every \<open>Find (descriptor)\<close> that issues a native find and returns a list:
  without a window the total is the number of returned items; with a window whose limit
  is negative or greater than the number of returned items, the total is that number
  when the offset is 0, the offset plus that number when the offset is positive and at
  least one item is returned, and \<open>-1\<close> when the offset is positive and no item is
  returned; with a window whose limit equals the number of returned items, the total is
  \<open>-1\<close>. The offset plus the number of items is the sum that Go computes, \<open>int_add\<close>;
  it is the sum of the two integers whenever that sum is below \<open>2^63\<close>.
\<close>

theorem find_total:
  assumes "fst (Find Sprint m ctx q) = Inr list"
      and "\<exists>qry fo. FindCall qry fo \<in> set (snd (Find Sprint m ctx q))"
  shows "(Window q = None \<longrightarrow> Total list = int (length (Items list))) \<and>
         (\<forall>w. Window q = Some w \<longrightarrow>
            (Window.Limit w < 0 \<or> int (length (Items list)) < Window.Limit w \<longrightarrow>
               (Offset w = 0 \<longrightarrow> Total list = int (length (Items list))) \<and>
               (Offset w > 0 \<and> length (Items list) > 0 \<longrightarrow>
                  Total list = int_add (Offset w) (int (length (Items list))) \<and>
                  (Offset w + int (length (Items list)) < 2 ^ 63 \<longrightarrow>
                     Total list = Offset w + int (length (Items list)))) \<and>
               (Offset w > 0 \<and> length (Items list) = 0 \<longrightarrow> Total list = - 1)) \<and>
            (int (length (Items list)) = Window.Limit w \<longrightarrow> Total list = - 1))"
proof (cases "case Window q of None \<Rightarrow> False | Some w \<Rightarrow> Window.Limit w = 0")
  case True
  then show ?thesis using assms
    by (auto simp add: Find_def Count_def Let_def split: option.splits sum.splits prod.splits)
next
  case False
  show ?thesis
  proof (cases "Window q")
    case None
    then show ?thesis using assms(1)
      by (auto simp add: Find_def Let_def split: option.splits sum.splits)
  next
    case (Some w)
    then have "Window.Limit w \<noteq> 0" using False by simp
    then show ?thesis using assms(1) Some
      by (auto simp add: Find_def Let_def int_add_in_range split: option.splits sum.splits)
  qed
qed

theorem find_total_witness:
  "Find sample_Sprint (NewHandler two_docs_collection) background paged_query
     = (Inr \<lparr>Total = 12, Limit = 5,
             Items = [\<lparr>ID = AnyString ''a1'', ETag = ''e1'', Updated = 7,
                       Payload = Some (fmupd ''id'' (AnyString ''a1'')
                                         (fmupd ''n'' (AnyInt 3) fmempty))\<rparr>,
                      \<lparr>ID = ObjectID [0x5f, 0x01], ETag = ''p-5f01'', Updated = 8,
                       Payload = Some (fmupd ''id'' (ObjectID [0x5f, 0x01]) fmempty)\<rparr>]\<rparr>,
        [FindCall fmempty
           \<lparr>FindOptions.Sort = Some [\<lparr>Key = ''_id'', Value = AnyInt 1\<rparr>],
            FindOptions.Projection = None, Skip = Some 10, FindOptions.Limit = Some 5,
            FindOptions.MaxTime = None\<rparr>])"
proof -
  let ?items = "[\<lparr>ID = AnyString ''a1'', ETag = ''e1'', Updated = 7,
                  Payload = Some (fmupd ''id'' (AnyString ''a1'')
                                    (fmupd ''n'' (AnyInt 3) fmempty))\<rparr>,
                 \<lparr>ID = ObjectID [0x5f, 0x01], ETag = ''p-5f01'', Updated = 8,
                  Payload = Some (fmupd ''id'' (ObjectID [0x5f, 0x01]) fmempty)\<rparr>]"
  let ?fo = "\<lparr>FindOptions.Sort = Some [\<lparr>Key = ''_id'', Value = AnyInt 1\<rparr>],
              FindOptions.Projection = None, Skip = Some 10, FindOptions.Limit = Some 5,
              FindOptions.MaxTime = None\<rparr>"
  let ?run = "Find sample_Sprint (NewHandler two_docs_collection) background paged_query"
  have loop: "Find_loop sample_Sprint \<lparr>Done = None, Deadline = None\<rparr> stored_docs (Suc 0) []
                = Inr ?items"
    by (simp add: stored_docs_def Err_def newItem_def Hex_def hexdigit_def)
  have calls: "snd ?run = [FindCall fmempty ?fo]"
    by (simp add: Find_def getQuery_def translatePredicate.simps getSort_def getProjection_def
        options_Find_def applyWindow_def c_NewHandler Err_def background_def loop Let_def
        paged_query_def two_docs_collection_def quiet_collection_def)
  obtain list where list: "fst ?run = Inr list"
    and items: "Items list = ?items" and lim: "ItemList.Limit list = 5"
    by (simp add: Find_def getQuery_def translatePredicate.simps getSort_def getProjection_def
        options_Find_def applyWindow_def c_NewHandler Err_def background_def loop Let_def
        paged_query_def two_docs_collection_def quiet_collection_def)
  have issued: "\<exists>qry fo. FindCall qry fo \<in> set (snd ?run)"
    using calls by simp
  have w: "Window paged_query = Some \<lparr>Offset = 10, Limit = 5\<rparr>"
    by (simp add: paged_query_def)
  have "Total list = 12"
    using find_total [OF list issued] items w by simp
  then have "list = \<lparr>Total = 12, Limit = 5, Items = ?items\<rparr>"
    using items lim by simp
  then show ?thesis
    using list calls by (simp add: prod_eq_iff)
qed

text \<open>
  Where the sum leaves the range of Go's \<open>int\<close> the total wraps around, as it does in
  the source: a driver that returned two documents after the greatest offset would make
  the total \<open>-2^63 + 1\<close>.
\<close>

lemma Find_total_wraps:
  "map_sum id Total
     (fst (Find sample_Sprint (NewHandler two_docs_collection) background far_offset_query))
     = Inr (- 9223372036854775807)"
proof -
  have loop: "\<exists>items. Find_loop sample_Sprint \<lparr>Done = None, Deadline = None\<rparr> stored_docs (Suc 0) []
                = Inr items \<and> length items = 2"
    by (simp add: stored_docs_def Err_def)
  then obtain items
    where run: "Find_loop sample_Sprint \<lparr>Done = None, Deadline = None\<rparr> stored_docs (Suc 0) []
                  = Inr items"
      and len: "length items = 2"
    by blast
  show ?thesis
    by (simp add: Find_def getQuery_def translatePredicate.simps getSort_def getProjection_def
        options_Find_def applyWindow_def c_NewHandler Err_def background_def run len Let_def
        far_offset_query_def two_docs_collection_def quiet_collection_def int_add_def)
qed

section \<open>The sort list\<close>

lemma keep_last_drop_seen:
  "Key x \<in> Key ` set suf \<Longrightarrow> keep_last (pre @ x # suf) = keep_last (pre @ suf)"
  by (induction pre) auto

lemma keep_last_distinct_id: "distinct (map Key s) \<Longrightarrow> keep_last s = s"
  by (induction s) auto

text \<open>
  The invariant of the second loop of \<open>getSort\<close>: the entries from index \<open>i\<close> on have
  distinct keys, and \<open>seen\<close> holds exactly their keys.
\<close>

lemma getSort_dedup_keep_last:
  "length pre = i \<Longrightarrow> distinct (map Key suf) \<Longrightarrow> (\<forall>k. seen k \<longleftrightarrow> k \<in> Key ` set suf) \<Longrightarrow>
   getSort_dedup i (pre @ suf) seen = keep_last (pre @ suf)"
proof (induction i arbitrary: pre suf seen)
  case 0
  then show ?case by (simp add: keep_last_distinct_id)
next
  case (Suc i)
  then obtain pre' x where pre: "pre = pre' @ [x]" and len: "length pre' = i"
    by (metis length_Suc_conv_rev)
  have nth: "(pre @ suf) ! i = x" using pre len by (simp add: nth_append)
  show ?case
  proof (cases "seen (Key x)")
    case True
    have rm: "take i (pre @ suf) @ drop (i + 1) (pre @ suf) = pre' @ suf"
      using pre len by simp
    have "getSort_dedup (Suc i) (pre @ suf) seen = getSort_dedup i (pre' @ suf) seen"
      using True nth rm by simp
    also have "\<dots> = keep_last (pre' @ suf)"
      using Suc.IH [OF len Suc.prems(2) Suc.prems(3)] .
    also have "\<dots> = keep_last (pre @ suf)"
      using True Suc.prems(3) pre by (simp add: keep_last_drop_seen)
    finally show ?thesis .
  next
    case False
    have d: "distinct (map Key (x # suf))" using False Suc.prems by simp
    have s: "\<forall>k. (seen(Key x := True)) k \<longleftrightarrow> k \<in> Key ` set (x # suf)"
      using Suc.prems(3) by auto
    have "getSort_dedup (Suc i) (pre @ suf) seen
            = getSort_dedup i (pre' @ (x # suf)) (seen(Key x := True))"
      using False nth pre by simp
    also have "\<dots> = keep_last (pre' @ (x # suf))"
      using Suc.IH [OF len d s] .
    finally show ?thesis using pre by simp
  qed
qed

lemma keep_last_nths:
  "keep_last s = nths s {i. i < length s \<and> Key (s ! i) \<notin> Key ` set (drop (Suc i) s)}"
proof (induction s)
  case Nil
  then show ?case by simp
next
  case (Cons e es)
  have "{j. Suc j \<in> {i. i < length (e # es) \<and>
                          Key ((e # es) ! i) \<notin> Key ` set (drop (Suc i) (e # es))}}
        = {i. i < length es \<and> Key (es ! i) \<notin> Key ` set (drop (Suc i) es)}"
    by simp
  then show ?case using Cons by (simp add: nths_Cons)
qed

lemma keep_last_keys: "Key ` set (keep_last s) = Key ` set s"
  by (induction s) auto

lemma keep_last_distinct: "distinct (map Key (keep_last s))"
  by (induction s) (simp_all add: keep_last_keys)

lemma getSort_keep_last:
  assumes "Query.Sort q \<noteq> []"
  shows "getSort q =
           keep_last (map (\<lambda>sf. \<lparr>Key = getField (SortField.Name sf),
                                 Value = AnyInt (if Reversed sf then - 1 else 1)\<rparr>)
                          (Query.Sort q))"
proof -
  let ?s = "map (\<lambda>sf. \<lparr>Key = getField (SortField.Name sf),
                        Value = AnyInt (if Reversed sf then - 1 else 1)\<rparr>) (Query.Sort q)"
  have "getSort q = getSort_dedup (length ?s) (?s @ []) (\<lambda>k. False)"
    using assms by (simp add: getSort_def Let_def)
  also have "\<dots> = keep_last (?s @ [])"
    by (rule getSort_dedup_keep_last) simp_all
  finally show ?thesis by simp
qed

text \<open>
  Claim C5. For every non-empty sort descriptor, let \<open>s\<close> be the list of its entries
  after field-name translation and direction mapping (ascending 1, descending -1). The
  normalized sort list consists of the entries of \<open>s\<close> at the positions where a key
  occurs for the last time, in the order of \<open>s\<close>; so it has each key of \<open>s\<close> exactly
  once, with the direction of its last occurrence.
\<close>

theorem getSort_keeps_last_occurrence:
  assumes "Query.Sort q \<noteq> []"
  shows "(let s = map (\<lambda>sf. \<lparr>Key = getField (SortField.Name sf),
                             Value = AnyInt (if Reversed sf then - 1 else 1)\<rparr>)
                      (Query.Sort q)
          in getSort q =
               nths s {i. i < length s \<and> Key (s ! i) \<notin> Key ` set (drop (Suc i) s)} \<and>
             distinct (map Key (getSort q)) \<and>
             Key ` set (getSort q) = Key ` set s)"
proof -
  let ?s = "map (\<lambda>sf. \<lparr>Key = getField (SortField.Name sf),
                        Value = AnyInt (if Reversed sf then - 1 else 1)\<rparr>) (Query.Sort q)"
  have eq: "getSort q = keep_last ?s"
    by (rule getSort_keep_last [OF assms])
  have pos: "getSort q = nths ?s {i. i < length ?s \<and> Key (?s ! i) \<notin> Key ` set (drop (Suc i) ?s)}"
    unfolding eq by (rule keep_last_nths)
  have dist: "distinct (map Key (getSort q))"
    unfolding eq by (rule keep_last_distinct)
  have keys: "Key ` set (getSort q) = Key ` set ?s"
    unfolding eq by (rule keep_last_keys)
  show ?thesis
    unfolding Let_def by (intro conjI) (rule pos, rule dist, rule keys)
qed

theorem getSort_keeps_last_occurrence_witness:
  "Query.Sort resorted_query \<noteq> [] \<and>
   getSort resorted_query
     = [\<lparr>Key = ''a'', Value = AnyInt (- 1)\<rparr>, \<lparr>Key = ''_id'', Value = AnyInt 1\<rparr>] \<and>
   distinct (map Key (getSort resorted_query))"
proof -
  have h: "Query.Sort resorted_query \<noteq> []"
    by (simp add: resorted_query_def)
  have d: "distinct (map Key (getSort resorted_query))"
    by (rule conjunct1 [OF conjunct2 [OF getSort_keeps_last_occurrence [OF h, unfolded Let_def]]])
  have v: "getSort resorted_query
             = [\<lparr>Key = ''a'', Value = AnyInt (- 1)\<rparr>, \<lparr>Key = ''_id'', Value = AnyInt 1\<rparr>]"
    by (simp add: getSort_def getField_def nth_Cons' resorted_query_def)
  show ?thesis using h d v by simp
qed

section \<open>The predicate compiler\<close>

lemma rejected_Nil: "\<not> rejected []"
  by (simp add: rejected.simps [of "[]"])

lemma rejected_Cons:
  "rejected (e # q) \<longleftrightarrow>
     outside_allow_list e \<or> (\<exists>sub \<in> set (subexps e). rejected (expToPredicate sub)) \<or> rejected q"
  by (simp add: rejected.simps [of "e # q"] rejected.simps [of q] list_ex_iff)

text \<open>
  Each of the four loops fails with \<open>NotImplemented\<close> exactly when a node outside the
  allow-list stands where the type switch is applied, and returns a filter otherwise.
\<close>

lemma translate_dichotomy:
  "(rejected q \<longrightarrow> translatePredicate q = Inl ErrNotImplemented) \<and>
   (\<not> rejected q \<longrightarrow> (\<exists>b'. translatePredicate q = Inr b'))"
  "(rejected q \<longrightarrow> translate_exps q b = Inl ErrNotImplemented) \<and>
   (\<not> rejected q \<longrightarrow> (\<exists>b'. translate_exps q b = Inr b'))"
  "((\<exists>sub \<in> set t. rejected (expToPredicate sub)) \<longrightarrow>
      translate_subs t s = Inl ErrNotImplemented) \<and>
   (\<not> (\<exists>sub \<in> set t. rejected (expToPredicate sub)) \<longrightarrow> (\<exists>s'. translate_subs t s = Inr s'))"
  "((\<exists>sub \<in> set t. rejected (expToPredicate sub)) \<longrightarrow>
      translate_elem t sm = Inl ErrNotImplemented) \<and>
   (\<not> (\<exists>sub \<in> set t. rejected (expToPredicate sub)) \<longrightarrow> (\<exists>s'. translate_elem t sm = Inr s'))"
proof (induction q and q b and t s and t sm
    rule: translatePredicate_translate_exps_translate_subs_translate_elem.induct)
  case (1 q)
  then show ?case by (simp add: translatePredicate.simps)
next
  case (2 b)
  then show ?case by (simp add: rejected_Nil)
next
  case (3 t q b)
  then show ?case by (auto simp add: rejected_Cons split: sum.splits)
next
  case (4 t q b)
  then show ?case by (auto simp add: rejected_Cons split: sum.splits)
next
  case (5 f t q b)
  then show ?case by (auto simp add: rejected_Cons split: sum.splits)
next
  case (16 f v negated q b)
  then show ?case by (auto simp add: rejected_Cons)
next
  case (21 subExp t s)
  then show ?case by (auto split: sum.splits)
next
  case (23 subExp t s)
  then show ?case by (auto split: sum.splits)
qed (simp_all add: rejected_Cons)

text \<open>
  Claim C8, amended. For every predicate in which a node of a kind outside the allow-list
  stands where the compiler applies its type switch, compilation fails with
  \<open>NotImplemented\<close> and produces no filter; for every other predicate it produces a
  filter. The type switch is applied to the expressions of the predicate and, for each
  sub-expression of a conjunction, disjunction or element-match, to that sub-expression,
  except that a sub-expression which is itself a predicate sequence is replaced by its
  members.
\<close>

theorem unsupported_node_not_implemented:
  "(rejected q \<longrightarrow> translatePredicate q = Inl ErrNotImplemented) \<and>
   (\<not> rejected q \<longrightarrow> (\<exists>b. translatePredicate q = Inr b))"
  by (rule translate_dichotomy(1))

theorem unsupported_node_not_implemented_witness:
  "rejected [Equal ''a'' (AnyInt 1),
             And [GreaterThan ''b'' (AnyInt 2), Or [Exist ''c'', Other ''query.Custom'']]] \<and>
   translatePredicate [Equal ''a'' (AnyInt 1),
             And [GreaterThan ''b'' (AnyInt 2), Or [Exist ''c'', Other ''query.Custom'']]]
     = Inl ErrNotImplemented"
proof -
  have "rejected [Equal ''a'' (AnyInt 1),
             And [GreaterThan ''b'' (AnyInt 2), Or [Exist ''c'', Other ''query.Custom'']]]"
    by (simp add: rejected_Cons rejected_Nil)
  then show ?thesis
    using unsupported_node_not_implemented
      [of "[Equal ''a'' (AnyInt 1),
            And [GreaterThan ''b'' (AnyInt 2), Or [Exist ''c'', Other ''query.Custom'']]]"]
    by simp
qed

text \<open>
  Claim C8 as stated fails: the tree has a node of a kind outside the allow-list, a
  predicate sequence under a conjunction, and compilation succeeds.
\<close>

theorem nested_predicate_compiles_counterexample:
  "list_ex outside_allow_list
     (concat (map nodes [And [Expression.Predicate [Equal ''a'' (AnyInt 1)]]])) \<and>
   translatePredicate [And [Expression.Predicate [Equal ''a'' (AnyInt 1)]]]
     = Inr (fmupd ''$and'' (AnySlice [M (fmupd ''a'' (AnyInt 1) fmempty)]) fmempty)"
  by (simp add: translatePredicate.simps getField_def)

text \<open>
  An expression that compiles writes one key of the filter, with a value that does not
  depend on the filter built so far; one that fails, fails whatever the filter.
\<close>

lemma single_write:
  "translate_exps [x] b = Inr b' \<Longrightarrow>
   \<exists>k v. filter_key x = Some k \<and> (\<forall>b0. translate_exps [x] b0 = Inr (fmupd k v b0))"
  by (cases x) (auto split: sum.splits if_splits)

lemma single_fail:
  "translate_exps [x] b = Inl err \<Longrightarrow> translate_exps [x] b0 = Inl err"
  by (cases x) (auto split: sum.splits if_splits)

lemma exps_step:
  "translate_exps (x # q) b =
     (case translate_exps [x] b of Inl err \<Rightarrow> Inl err | Inr b1 \<Rightarrow> translate_exps q b1)"
  by (cases x) (simp_all split: sum.splits)

lemma exps_append:
  "translate_exps (xs @ ys) b =
     (case translate_exps xs b of Inl err \<Rightarrow> Inl err | Inr b1 \<Rightarrow> translate_exps ys b1)"
proof (induction xs arbitrary: b)
  case Nil
  then show ?case by simp
next
  case (Cons x xs)
  show ?case
    by (simp add: exps_step [of x "xs @ ys"] exps_step [of x xs] Cons.IH split: sum.splits)
qed

lemma exps_keeps_other_keys:
  "translate_exps q b = Inr b' \<Longrightarrow> \<forall>x \<in> set q. filter_key x \<noteq> Some k \<Longrightarrow>
   fmlookup b' k = fmlookup b k"
proof (induction q arbitrary: b)
  case Nil
  then show ?case by simp
next
  case (Cons x q)
  from Cons.prems(1) obtain b1
    where x: "translate_exps [x] b = Inr b1" and r: "translate_exps q b1 = Inr b'"
    by (auto simp add: exps_step [of x q] split: sum.splits)
  from single_write [OF x] obtain kx v
    where kx: "filter_key x = Some kx" and w: "\<forall>b0. translate_exps [x] b0 = Inr (fmupd kx v b0)"
    by blast
  have "b1 = fmupd kx v b" using x w by simp
  moreover have "kx \<noteq> k" using kx Cons.prems(2) by auto
  moreover have "fmlookup b' k = fmlookup b1 k" using Cons.IH [OF r] Cons.prems(2) by simp
  ultimately show ?case by simp
qed

lemma fmupd_as_fmadd: "fmupd k v b ++\<^sub>f d = b ++\<^sub>f (fmupd k v fmempty ++\<^sub>f d)"
  by (rule fmap_ext) simp

text \<open>Compiling onto a filter \<open>b\<close> is compiling onto the empty filter and merging.\<close>

lemma exps_from:
  "translate_exps q b =
     (case translatePredicate q of Inl err \<Rightarrow> Inl err | Inr d \<Rightarrow> Inr (b ++\<^sub>f d))"
proof (induction q arbitrary: b)
  case Nil
  then show ?case by (simp add: translatePredicate.simps)
next
  case (Cons x q)
  show ?case
  proof (cases "translate_exps [x] b")
    case (Inl err)
    then have "translate_exps [x] fmempty = Inl err" by (rule single_fail)
    then show ?thesis using Inl
      by (simp add: exps_step [of x q] translatePredicate.simps)
  next
    case (Inr b1)
    from single_write [OF Inr] obtain k v
      where w: "\<forall>b0. translate_exps [x] b0 = Inr (fmupd k v b0)" by blast
    have "translate_exps (x # q) b = translate_exps q (fmupd k v b)"
      using w by (simp add: exps_step [of x q])
    moreover have "translatePredicate (x # q) = translate_exps q (fmupd k v fmempty)"
      using w by (simp add: exps_step [of x q] translatePredicate.simps)
    ultimately show ?thesis
      using Cons.IH [of "fmupd k v b"] Cons.IH [of "fmupd k v fmempty"]
        fmupd_as_fmadd [of k v b]
      by (simp split: sum.splits)
  qed
qed

lemma predicate_Cons:
  "translatePredicate (x # q) =
     (case translatePredicate [x] of
        Inl err \<Rightarrow> Inl err
      | Inr dx \<Rightarrow> (case translatePredicate q of
                     Inl err \<Rightarrow> Inl err | Inr d \<Rightarrow> Inr (dx ++\<^sub>f d)))"
  using exps_step [of x q fmempty] exps_from [of q]
  by (simp add: translatePredicate.simps [of "x # q"] translatePredicate.simps [of "[x]"]
      split: sum.splits)

lemma predicate_append:
  "translatePredicate (xs @ ys) =
     (case translatePredicate xs of
        Inl err \<Rightarrow> Inl err
      | Inr dx \<Rightarrow> (case translatePredicate ys of
                     Inl err \<Rightarrow> Inl err | Inr dy \<Rightarrow> Inr (dx ++\<^sub>f dy)))"
  using exps_append [of xs ys fmempty] exps_from [of ys]
  by (simp add: translatePredicate.simps [of "xs @ ys"] translatePredicate.simps [of xs]
      split: sum.splits)

lemma predicate_single:
  "translatePredicate [x] = Inr d \<Longrightarrow> \<exists>k v. filter_key x = Some k \<and> d = fmupd k v fmempty"
  using single_write [of x fmempty d] by (auto simp add: translatePredicate.simps)

lemma predicate_dom:
  "translatePredicate q = Inr d \<Longrightarrow> \<forall>x \<in> set q. filter_key x \<noteq> Some k \<Longrightarrow>
   fmlookup d k = None"
  using exps_keeps_other_keys [of q fmempty d k] by (simp add: translatePredicate.simps)

text \<open>Leaving out the expressions that write a key \<open>k\<close> removes \<open>k\<close> from the filter.\<close>

lemma predicate_drop:
  "translatePredicate q = Inr d \<Longrightarrow>
   translatePredicate (filter (\<lambda>x. filter_key x \<noteq> Some k) q) = Inr (fmdrop k d)"
proof (induction q arbitrary: d)
  case Nil
  then show ?case by (simp add: translatePredicate.simps)
next
  case (Cons x q)
  from Cons.prems obtain dx dq where dx: "translatePredicate [x] = Inr dx"
    and dq: "translatePredicate q = Inr dq" and d: "d = dx ++\<^sub>f dq"
    by (auto simp add: predicate_Cons [of x q] split: sum.splits)
  from predicate_single [OF dx] obtain kx v where kx: "filter_key x = Some kx"
    and dxe: "dx = fmupd kx v fmempty" by blast
  note IH = Cons.IH [OF dq]
  show ?case
  proof (cases "kx = k")
    case True
    have "fmdrop k d = fmdrop k dq"
      unfolding d dxe True by (rule fmap_ext) auto
    then show ?thesis using True kx IH by simp
  next
    case False
    have "fmdrop k d = dx ++\<^sub>f fmdrop k dq"
      unfolding d dxe using False by (rule_tac fmap_ext) auto
    then show ?thesis using False kx IH dx
      by (simp add: predicate_Cons [of x "filter (\<lambda>x. filter_key x \<noteq> Some k) q"])
  qed
qed

text \<open>
  Claim C10, amended. For every predicate that compiles, and every leaf expression at
  its top level after which no expression of that level writes the same key of the filter
  (a leaf and an element-match write their translated field name, a conjunction writes
  \<open>$and\<close> and a disjunction \<open>$or\<close>): the filter holds under the translated field name
  of the leaf the clause that the leaf alone compiles to, and the filter is the same as
  without the earlier expressions of that level that write this key; no error is
  reported.
\<close>

theorem last_writer_wins:
  assumes "translatePredicate (pre @ e # post) = Inr b"
      and "leaf_field e = Some f"
      and "\<forall>x \<in> set post. filter_key x \<noteq> Some (getField f)"
  shows "\<exists>v. translatePredicate [e] = Inr (fmupd (getField f) v fmempty) \<and>
             fmlookup b (getField f) = Some v \<and>
             translatePredicate (filter (\<lambda>x. filter_key x \<noteq> Some (getField f)) pre @ e # post)
               = Inr b"
proof -
  from assms(1) obtain dpre dr where dpre: "translatePredicate pre = Inr dpre"
    and dr: "translatePredicate (e # post) = Inr dr" and b: "b = dpre ++\<^sub>f dr"
    by (auto simp add: predicate_append [of pre "e # post"] split: sum.splits)
  from dr obtain de dpost where de: "translatePredicate [e] = Inr de"
    and dpost: "translatePredicate post = Inr dpost" and dre: "dr = de ++\<^sub>f dpost"
    by (auto simp add: predicate_Cons [of e post] split: sum.splits)
  from predicate_single [OF de] obtain k v where k: "filter_key e = Some k"
    and dee: "de = fmupd k v fmempty" by blast
  have kf: "k = getField f" using assms(2) k by (cases e) simp_all
  have none: "fmlookup dpost (getField f) = None"
    using predicate_dom [OF dpost assms(3)] .
  have look: "fmlookup b (getField f) = Some v"
    unfolding b dre dee kf using none by (simp add: fmlookup_dom_iff)
  have "fmdrop (getField f) dpre ++\<^sub>f dr = b"
    unfolding b dre dee kf by (rule fmap_ext) auto
  then have "translatePredicate (filter (\<lambda>x. filter_key x \<noteq> Some (getField f)) pre @ e # post)
               = Inr b"
    using predicate_drop [OF dpre, of "getField f"] dr
    by (simp add: predicate_append [of _ "e # post"])
  then show ?thesis using de dee kf look by blast
qed

theorem last_writer_wins_witness:
  "translatePredicate ([GreaterThan ''n'' (AnyInt 1), Equal ''id'' (AnyString ''a1'')]
                       @ LowerThan ''n'' (AnyInt 5) # [Exist ''m''])
     = Inr (fmupd ''m'' (M (fmupd ''$exists'' (AnyBool True) fmempty))
             (fmupd ''n'' (M (fmupd ''$lt'' (AnyInt 5) fmempty))
               (fmupd ''_id'' (AnyString ''a1'') fmempty))) \<and>
   leaf_field (LowerThan ''n'' (AnyInt 5)) = Some ''n'' \<and>
   list_all (\<lambda>x. filter_key x \<noteq> Some (getField ''n'')) [Exist ''m''] \<and>
   fmlookup (fmupd ''m'' (M (fmupd ''$exists'' (AnyBool True) fmempty))
             (fmupd ''n'' (M (fmupd ''$lt'' (AnyInt 5) fmempty))
               (fmupd ''_id'' (AnyString ''a1'') fmempty))) ''n''
     = Some (M (fmupd ''$lt'' (AnyInt 5) fmempty)) \<and>
   translatePredicate [Equal ''id'' (AnyString ''a1''), LowerThan ''n'' (AnyInt 5), Exist ''m'']
     = Inr (fmupd ''m'' (M (fmupd ''$exists'' (AnyBool True) fmempty))
             (fmupd ''n'' (M (fmupd ''$lt'' (AnyInt 5) fmempty))
               (fmupd ''_id'' (AnyString ''a1'') fmempty)))"
proof -
  let ?b = "fmupd ''m'' (M (fmupd ''$exists'' (AnyBool True) fmempty))
             (fmupd ''n'' (M (fmupd ''$lt'' (AnyInt 5) fmempty))
               (fmupd ''_id'' (AnyString ''a1'') fmempty))"
  have h1: "translatePredicate ([GreaterThan ''n'' (AnyInt 1), Equal ''id'' (AnyString ''a1'')]
                       @ LowerThan ''n'' (AnyInt 5) # [Exist ''m'']) = Inr ?b"
    by (simp add: translatePredicate.simps getField_def) (rule fmap_ext, simp)
  have h2: "leaf_field (LowerThan ''n'' (AnyInt 5)) = Some ''n''" by simp
  have h3: "\<forall>x \<in> set [Exist ''m'']. filter_key x \<noteq> Some (getField ''n'')"
    by (simp add: getField_def)
  have "translatePredicate
          (filter (\<lambda>x. filter_key x \<noteq> Some (getField ''n''))
             [GreaterThan ''n'' (AnyInt 1), Equal ''id'' (AnyString ''a1'')]
           @ LowerThan ''n'' (AnyInt 5) # [Exist ''m'']) = Inr ?b"
    using last_writer_wins [OF h1 h2 h3] by blast
  then show ?thesis
    using h1 h2 h3 by (simp add: getField_def)
qed

text \<open>
  Claim C10 as stated fails: two leaves on the field \<open>a\<close> are followed by an
  element-match on \<open>a\<close>, and the filter holds under \<open>a\<close> the clause of the
  element-match, not the clause \<open>2\<close> of the last leaf.
\<close>

theorem later_elem_match_overwrites_counterexample:
  "leaf_field (Equal ''a'' (AnyInt 1)) = Some ''a'' \<and>
   leaf_field (Equal ''a'' (AnyInt 2)) = Some ''a'' \<and>
   leaf_field (ElemMatch ''a'' []) = None \<and>
   translatePredicate [Equal ''a'' (AnyInt 1), Equal ''a'' (AnyInt 2), ElemMatch ''a'' []]
     = Inr (fmupd ''a'' (M (fmupd ''$elemMatch'' (M fmempty) fmempty)) fmempty)"
  by (simp add: translatePredicate.simps getField_def)

end
